theory Spec2Isabelle
  imports Main "HOL-Library.Sublist"
begin

section \<open>Strings\<close>

text \<open>
  The program is TypeScript. A JavaScript string is a sequence of UTF-16 code units;
  here it is a \<^typ>\<open>string\<close>, each \<^typ>\<open>char\<close> standing for one code unit
  below 256. The functions of this development inspect only ASCII characters
  (\<open>/\<close>, \<open>{\<close>, \<open>}\<close>, digits, signs, white space, letters), every other code unit is
  passed through untouched.
\<close>

subsection \<open>\<open>BaseExtractor.normalizePath\<close> (src/extractors/base.ts)\<close>

text \<open>
  \<^verbatim>\<open>normalized.replace(/\/+/g, '/')\<close>: every maximal run of slashes is replaced by
  one slash.
\<close>

function collapse_slashes :: "string \<Rightarrow> string" where
  "collapse_slashes [] = []"
| "collapse_slashes (c # cs) =
     (if c = CHR ''/'' then CHR ''/'' # collapse_slashes (dropWhile (\<lambda>d. d = CHR ''/'') cs)
      else c # collapse_slashes cs)"
  by pat_completeness auto
termination
  by (relation "measure length") (auto simp: less_Suc_eq_le length_dropWhile_le)

text \<open>
  \<^verbatim>\<open>
  let normalized = path;
  if (!normalized.startsWith('/')) { normalized = '/' + normalized; }
  if (normalized.length > 1 && normalized.endsWith('/')) { normalized = normalized.slice(0, -1); }
  normalized = normalized.replace(/\/+/g, '/');
  return normalized;
  \<close>
\<close>

definition normalizePath :: "string \<Rightarrow> string" where
  "normalizePath path =
     (let n1 = (if prefix ''/'' path then path else ''/'' @ path);
          n2 = (if length n1 > 1 \<and> suffix ''/'' n1 then butlast n1 else n1)
      in collapse_slashes n2)"

text \<open>\<open>//\<close> does not occur in the string.\<close>

fun no_double_slash :: "string \<Rightarrow> bool" where
  "no_double_slash (c # d # cs) = (\<not> (c = CHR ''/'' \<and> d = CHR ''/'') \<and> no_double_slash (d # cs))"
| "no_double_slash _ = True"

subsection \<open>\<open>BaseExtractor.extractPathParams\<close>\<close>

text \<open>
  The loop \<^verbatim>\<open>while ((match = regex.exec(path)) !== null) params.push(match[1])\<close> with the
  regular expression \<^verbatim>\<open>/\{([^}]+)\}/g\<close>: at an opening brace the longest run of characters
  other than \<open>}\<close> is the name, if it is not empty and a closing brace follows; the search
  goes on after that brace, and otherwise at the next character.
\<close>

function extractPathParams :: "string \<Rightarrow> string list" where
  "extractPathParams [] = []"
| "extractPathParams (c # cs) =
     (if c = CHR ''{''
      then (let name = takeWhile (\<lambda>d. d \<noteq> CHR ''}'') cs;
                rest = dropWhile (\<lambda>d. d \<noteq> CHR ''}'') cs
            in if name \<noteq> [] \<and> rest \<noteq> [] then name # extractPathParams (tl rest)
               else extractPathParams cs)
      else extractPathParams cs)"
  by pat_completeness auto
termination
proof (relation "measure length")
  fix c :: char and cs name rest :: string
  assume "rest = dropWhile (\<lambda>d. d \<noteq> CHR ''}'') cs"
  then have "length (tl rest) \<le> length cs"
    using length_dropWhile_le [of "\<lambda>d. d \<noteq> CHR ''}''" cs] by simp
  then show "(tl rest, c # cs) \<in> measure length" by simp
qed simp_all

subsection \<open>\<open>String.prototype.toLowerCase\<close>, \<open>parseInt\<close>, property lookup\<close>

text \<open>
  Among the code units below 256, \<^verbatim>\<open>toLowerCase\<close> changes the letters \<open>A\<close> to \<open>Z\<close> and the
  Latin-1 capitals (192 to 222, without the multiplication sign 215).
\<close>

definition lower_char :: "char \<Rightarrow> char" where
  "lower_char c =
     (let n = (of_char c :: nat)
      in if (65 \<le> n \<and> n \<le> 90) \<or> (192 \<le> n \<and> n \<le> 222 \<and> n \<noteq> 215) then char_of (n + 32)
         else c)"

definition toLowerCase :: "string \<Rightarrow> string" where
  "toLowerCase s = map lower_char s"





text \<open>
  Looking a key up in an object literal, \<^verbatim>\<open>table[key]\<close>, finds the properties of the literal
  and, for any other key, the properties that every object inherits from
  \<^verbatim>\<open>Object.prototype\<close>: the constructor \<^verbatim>\<open>Object\<close>, the prototype itself under \<^verbatim>\<open>__proto__\<close>,
  and ten methods. They are functions and objects, so they are truthy.
\<close>

datatype object_member = Object_constructor | Object_prototype | Object_method string

definition Object_prototype_get :: "string \<Rightarrow> object_member option" where
  "Object_prototype_get key =
     (if key = ''constructor'' then Some Object_constructor
      else if key = ''__proto__'' then Some Object_prototype
      else if key \<in> set [''__defineGetter__'', ''__defineSetter__'', ''hasOwnProperty'',
                  ''__lookupGetter__'', ''__lookupSetter__'', ''isPrototypeOf'',
                  ''propertyIsEnumerable'', ''toString'', ''valueOf'', ''toLocaleString'']
      then Some (Object_method key)
      else None)"

datatype 'a property = Own 'a | Inherited object_member

definition object_get :: "(string \<times> 'a) list \<Rightarrow> string \<Rightarrow> 'a property option" where
  "object_get literal key =
     (case map_of literal key of
        Some v \<Rightarrow> Some (Own v)
      | None \<Rightarrow> map_option Inherited (Object_prototype_get key))"

subsection \<open>\<open>Map\<close>\<close>

text \<open>
  A JavaScript \<^verbatim>\<open>Map\<close> iterates in the order in which its keys were first set: it is a list
  of pairs with distinct keys; \<^verbatim>\<open>set\<close> on a key it has replaces the value in place.
\<close>

fun Map_set :: "'k \<Rightarrow> 'v \<Rightarrow> ('k \<times> 'v) list \<Rightarrow> ('k \<times> 'v) list" where
  "Map_set k v [] = [(k, v)]"
| "Map_set k v ((k', v') # m) = (if k' = k then (k, v) # m else (k', v') # Map_set k v m)"

definition Map_get :: "('k \<times> 'v) list \<Rightarrow> 'k \<Rightarrow> 'v option" where
  "Map_get m k = map_of m k"

definition Map_has :: "('k \<times> 'v) list \<Rightarrow> 'k \<Rightarrow> bool" where
  "Map_has m k = (map_of m k \<noteq> None)"

section \<open>The normalized model (core/types) and \<open>BaseExtractor\<close>\<close>

datatype ProjectType =
  OPENAPI | FASTAPI | FLASK | DJANGO_REST | SPRING_BOOT | ASPNET_CORE | EXPRESS | UNKNOWN

datatype HttpMethod = GET | POST | PUT | DELETE | PATCH | OPTIONS | HEAD

datatype ParameterLocation = PATH | QUERY | HEADER | COOKIE

text \<open>
  \<^verbatim>\<open>BaseExtractor.parseParameterLocation\<close>:
  \<^verbatim>\<open>
  const lower = location.toLowerCase();
  const locations: Record<string, ParameterLocation> = { 'path': ..., 'query': ..., 'header': ..., 'cookie': ... };
  return locations[lower] || ParameterLocation.PATH;
  \<close>
  The four values are non-empty strings, so every value that the lookup finds is truthy
  and is returned; only \<^verbatim>\<open>undefined\<close> gives the default.
\<close>

definition locations :: "(string \<times> ParameterLocation) list" where
  "locations = [(''path'', PATH), (''query'', QUERY), (''header'', HEADER), (''cookie'', COOKIE)]"

definition parseParameterLocation :: "string \<Rightarrow> ParameterLocation property" where
  "parseParameterLocation location =
     (case object_get locations (toLowerCase location) of
        Some v \<Rightarrow> v
      | None \<Rightarrow> Own PATH)"

text \<open>
  \<^verbatim>\<open>ApiParameter\<close>, \<^verbatim>\<open>ApiResponse\<close>, \<^verbatim>\<open>ApiEndpoint\<close>, \<^verbatim>\<open>ApiGroup\<close>. The field names carry a
  prefix (\<open>param_in\<close> is \<^verbatim>\<open>in\<close>, \<open>ep_path\<close> is \<^verbatim>\<open>path\<close>, and so on). The schemas, examples,
  summaries, the operation id, the request body and the deprecation flags are left out:
  they are converted field by field and no other field depends on them. \<open>param_in\<close> holds
  what \<^verbatim>\<open>parseParameterLocation\<close> returned, which the type \<^verbatim>\<open>ParameterLocation\<close> does not
  check at run time.
\<close>

record ApiParameter =
  param_name :: string
  param_in :: "ParameterLocation property"
  param_required :: bool

record ApiResponse =
  statusCode :: int
  resp_description :: string

record ApiEndpoint =
  ep_method :: HttpMethod
  ep_path :: string
  ep_tags :: "string list option"
  ep_parameters :: "ApiParameter list"
  ep_responses :: "ApiResponse list"

record ApiGroup =
  group_name :: string
  group_description :: "string option"
  group_endpoints :: "ApiEndpoint list"





text \<open>\<^verbatim>\<open>createDefaultResponse(statusCode, description)\<close> with a description given.\<close>

definition createDefaultResponse :: "int \<Rightarrow> string \<Rightarrow> ApiResponse" where
  "createDefaultResponse code description = \<lparr>statusCode = code, resp_description = description\<rparr>"


section \<open>The OpenAPI extractor (src/extractors/openapi.ts)\<close>

text \<open>
  The document as its TypeScript interfaces declare it, without the schemas and the
  other fields that the model above leaves out. A \<^verbatim>\<open>Record\<close> is the list of its entries in
  the order of \<^verbatim>\<open>Object.entries\<close>; an optional field is an \<open>option\<close>.
\<close>

record OpenApiParameter =
  oa_name :: string
  oa_in :: string
  oa_required :: "bool option"




record OpenApiTag =
  tag_name :: string
  tag_description :: "string option"


text \<open>
  \<^verbatim>\<open>convertParameter\<close>:
  \<^verbatim>\<open>{ name: param.name, in: this.parseParameterLocation(param.in), required: param.required || false, ... }\<close>
\<close>

definition convertParameter :: "OpenApiParameter \<Rightarrow> ApiParameter" where
  "convertParameter param =
     \<lparr>param_name = oa_name param,
      param_in = parseParameterLocation (oa_in param),
      param_required = (case oa_required param of Some b \<Rightarrow> b | None \<Rightarrow> False)\<rparr>"





text \<open>
  \<^verbatim>\<open>groupEndpointsByTag\<close>. The name of the group of an endpoint is
  \<^verbatim>\<open>endpoint.tags?.[0] || 'default'\<close>: the first tag unless there is none or it is the empty
  string, which is falsy.
\<close>

definition tagName :: "ApiEndpoint \<Rightarrow> string" where
  "tagName endpoint =
     (case ep_tags endpoint of
        None \<Rightarrow> ''default''
      | Some [] \<Rightarrow> ''default''
      | Some (t # _) \<Rightarrow> (if t = [] then ''default'' else t))"

text \<open>
  The entries of \<^verbatim>\<open>tagMap\<close> are pairs of a description and a list of endpoints.
  \<^verbatim>\<open>
  if (!tagMap.has(tagName)) { tagMap.set(tagName, { endpoints: [] }); }
  tagMap.get(tagName)!.endpoints.push(endpoint);
  \<close>
\<close>

definition add_to_tag ::
  "(string \<times> string option \<times> ApiEndpoint list) list \<Rightarrow> ApiEndpoint
     \<Rightarrow> (string \<times> string option \<times> ApiEndpoint list) list" where
  "add_to_tag tagMap endpoint =
     (let name = tagName endpoint;
          tagMap1 = (if \<not> Map_has tagMap name then Map_set name (None, []) tagMap else tagMap)
      in case Map_get tagMap1 name of
           Some (description, eps) \<Rightarrow> Map_set name (description, eps @ [endpoint]) tagMap1
         | None \<Rightarrow> tagMap1)"

definition groupEndpointsByTag :: "ApiEndpoint list \<Rightarrow> OpenApiTag list option \<Rightarrow> ApiGroup list" where
  "groupEndpointsByTag endpoints tags =
     (let declared = foldl (\<lambda>m tag. Map_set (tag_name tag) (tag_description tag, []) m) []
                       (case tags of None \<Rightarrow> [] | Some ts \<Rightarrow> ts);
          tagMap = foldl add_to_tag (Map_set ''default'' (None, []) declared) endpoints
      in map (\<lambda>(name, description, eps).
               \<lparr>group_name = name, group_description = description, group_endpoints = eps\<rparr>)
           (filter (\<lambda>(name, description, eps). length eps > 0) tagMap))"




section \<open>The FastAPI extractor (src/extractors/python/fastapi.ts)\<close>

text \<open>
  A route as \<^verbatim>\<open>extractRoutes\<close> found it. \<open>fr_funcParams\<close> is the list that
  \<^verbatim>\<open>parseFunctionParams(route.functionParams)\<close> returns: the name, the type and whether
  there is a default value, for each parameter of the handler.
\<close>

record func_param =
  fp_name :: string
  fp_type :: string
  fp_hasDefault :: bool

record fastapi_route =
  fr_method :: HttpMethod
  fr_path :: string
  fr_routerName :: string
  fr_funcParams :: "func_param list"

text \<open>
  \<^verbatim>\<open>FastApiExtractor.routeToEndpoint\<close>. \<open>routers\<close> is the map from the name of a router to its
  prefix, \<open>models\<close> holds the names of the Pydantic models; both come from the first pass.
\<close>

definition fastapi_fullPath :: "(string \<times> string) list \<Rightarrow> fastapi_route \<Rightarrow> string" where
  "fastapi_fullPath routers route =
     (case Map_get routers (fr_routerName route) of
        Some routerPrefix \<Rightarrow>
          (if routerPrefix \<noteq> [] then routerPrefix @ fr_path route else fr_path route)
      | None \<Rightarrow> fr_path route)"

definition fastapi_routeToEndpoint ::
  "(string \<times> string) list \<Rightarrow> string list \<Rightarrow> fastapi_route \<Rightarrow> ApiEndpoint" where
  "fastapi_routeToEndpoint routers models route =
     (let fullPath = fastapi_fullPath routers route;
          pathParams = extractPathParams fullPath;
          funcParams = fr_funcParams route;
          pathParameters =
            map (\<lambda>paramName. \<lparr>param_name = paramName, param_in = Own PATH,
                               param_required = True\<rparr>) pathParams;
          queryParameters =
            map (\<lambda>param. \<lparr>param_name = fp_name param, param_in = Own QUERY,
                           param_required = (\<not> fp_hasDefault param)\<rparr>)
              (filter (\<lambda>param. \<not> (fp_name param \<in> set pathParams)
                         \<and> \<not> (fp_name param = ''request'' \<or> fp_name param = ''db''
                                \<or> fp_name param = ''session'')
                         \<and> \<not> (fp_type param \<in> set models)) funcParams)
      in \<lparr>ep_method = fr_method route, ep_path = normalizePath fullPath, ep_tags = None,
          ep_parameters = pathParameters @ queryParameters,
          ep_responses = [createDefaultResponse 200 ''Successful Response'',
                          createDefaultResponse 422 ''Validation Error'']\<rparr>)"

section \<open>The Flask extractor (src/extractors/python/flask.ts)\<close>







section \<open>The Django REST Framework extractor (module extractors/python/django)\<close>

datatype view_type = Function_view | Viewset_view | Apiview_view












section \<open>Framework detection (src/core/orchestrator.ts, module core/detector)\<close>

text \<open>\<^verbatim>\<open>DETECTION_SCORES\<close> and \<^verbatim>\<open>MIN_CONFIDENCE_THRESHOLD\<close>.\<close>

definition PROJECT_FILE :: nat where "PROJECT_FILE = 20"
definition FRAMEWORK_FILE :: nat where "FRAMEWORK_FILE = 40"
definition CODE_PATTERN :: nat where "CODE_PATTERN = 60"
definition MULTIPLE_ENDPOINTS :: nat where "MULTIPLE_ENDPOINTS = 80"
definition OPENAPI_SPEC :: nat where "OPENAPI_SPEC = 100"
definition MIN_CONFIDENCE_THRESHOLD :: nat where "MIN_CONFIDENCE_THRESHOLD = 30"

definition OPENAPI_SPEC_PATTERNS :: "string list" where
  "OPENAPI_SPEC_PATTERNS =
     [''openapi.json'', ''openapi.yaml'', ''openapi.yml'',
      ''swagger.json'', ''swagger.yaml'', ''swagger.yml'',
      ''api-spec.json'', ''api-spec.yaml'', ''api.json'', ''api.yaml'',
      ''docs/openapi.json'', ''docs/openapi.yaml'', ''docs/swagger.json'', ''docs/swagger.yaml'',
      ''spec/openapi.json'', ''spec/openapi.yaml'', ''api/openapi.json'', ''api/openapi.yaml'']"

definition pythonIndicators :: "string list" where
  "pythonIndicators =
     [''requirements.txt'', ''pyproject.toml'', ''setup.py'', ''Pipfile'', ''poetry.lock'']"

text \<open>
  \<^verbatim>\<open>DetectionResult\<close>. The fields \<^verbatim>\<open>reasons\<close> and \<^verbatim>\<open>projectFiles\<close> (lists of messages
  and of paths that no decision reads) are left out; \<open>rtype\<close> is the field \<^verbatim>\<open>type\<close>.
  Scores are sums of the constants above, so they are natural numbers.
\<close>

record DetectionResult =
  rtype :: ProjectType
  confidence :: nat
  specFile :: "string option"
  estimatedEndpoints :: "nat option"

subsection \<open>What the detector observes of a directory\<close>

text \<open>
  The detector reads the file system through \<^verbatim>\<open>fs.existsSync\<close>, \<^verbatim>\<open>fs.readFileSync\<close> and
  \<^verbatim>\<open>glob\<close>, and the contents through \<^verbatim>\<open>String.includes\<close> and regular expressions. A file
  is absent, unreadable (\<^verbatim>\<open>readFileSync\<close> throws) or has a content; a content is the record
  of the answers to the tests that the code makes on it.
\<close>

datatype 'a disk_file = Absent | Unreadable | Content 'a

text \<open>What \<^verbatim>\<open>validateOpenApiSpec\<close> tests on a candidate specification file.\<close>

record spec_content =
  json_keys :: "(bool \<times> bool) option"
    \<comment> \<open>\<^verbatim>\<open>JSON.parse(content)\<close>: \<open>None\<close> when it (or the property access) throws, else
        \<^verbatim>\<open>(typeof spec.openapi === 'string', typeof spec.swagger === 'string')\<close>\<close>
  yaml_keywords :: bool
    \<comment> \<open>\<^verbatim>\<open>content.includes('swagger:') || content.includes('openapi:') ||
        content.includes('"swagger"') || content.includes('"openapi"')\<close>\<close>

text \<open>What the Python detectors test on a \<^verbatim>\<open>.py\<close> file.\<close>

record py_content =
  fastapi_import :: bool
    \<comment> \<open>\<^verbatim>\<open>content.includes('from fastapi import') || content.includes('import fastapi')\<close>\<close>
  fastapi_instance :: bool  \<comment> \<open>\<^verbatim>\<open>/FastAPI\s*\(/.test(content)\<close>\<close>
  app_routes :: nat
    \<comment> \<open>number of matches of \<^verbatim>\<open>/@app\.(get|post|put|delete|patch)\s*\(/gi\<close>\<close>
  router_routes :: nat
    \<comment> \<open>number of matches of \<^verbatim>\<open>/@router\.(get|post|put|delete|patch)\s*\(/gi\<close>\<close>
  api_router :: bool
    \<comment> \<open>\<^verbatim>\<open>content.includes('APIRouter(') || content.includes('APIRouter()')\<close>\<close>
  flask_import :: bool
    \<comment> \<open>\<^verbatim>\<open>content.includes('from flask import') || content.includes('import flask')\<close>\<close>
  flask_instance :: bool  \<comment> \<open>\<^verbatim>\<open>/Flask\s*\(/.test(content)\<close>\<close>
  flask_routes :: nat  \<comment> \<open>number of matches of \<^verbatim>\<open>/@app\.route\s*\(/gi\<close>\<close>
  blueprint :: bool  \<comment> \<open>\<^verbatim>\<open>content.includes('Blueprint(')\<close>\<close>
  drf_import :: bool
    \<comment> \<open>\<^verbatim>\<open>content.includes('from rest_framework') || content.includes('import rest_framework')\<close>\<close>
  api_views :: nat  \<comment> \<open>number of matches of \<^verbatim>\<open>/@api_view\s*\(/gi\<close>\<close>
  viewset_class :: bool  \<comment> \<open>the test of the ViewSet class pattern\<close>
  apiview_class :: bool  \<comment> \<open>the test of the APIView class pattern\<close>
  drf_router :: bool
    \<comment> \<open>\<^verbatim>\<open>content.includes('DefaultRouter(') || content.includes('SimpleRouter(')\<close>\<close>
  serializer_class :: bool  \<comment> \<open>\<^verbatim>\<open>/class\s+\w+Serializer\s*\(/i.test(content)\<close>\<close>

text \<open>A Python file in which no test succeeds and no pattern matches.\<close>

definition plain_py :: py_content where
  "plain_py = \<lparr>fastapi_import = False, fastapi_instance = False, app_routes = 0,
     router_routes = 0, api_router = False, flask_import = False, flask_instance = False,
     flask_routes = 0, blueprint = False, drf_import = False, api_views = 0,
     viewset_class = False, apiview_class = False, drf_router = False,
     serializer_class = False\<rparr>"

record java_content =
  java_controller :: bool
    \<comment> \<open>\<^verbatim>\<open>content.includes('@RestController') || content.includes('@Controller')\<close>\<close>
  java_mappings :: nat
    \<comment> \<open>total number of matches of the six patterns \<^verbatim>\<open>/@GetMapping/gi\<close>, ...,
        \<^verbatim>\<open>/@RequestMapping/gi\<close>\<close>

record cs_content =
  cs_controller :: bool
    \<comment> \<open>\<^verbatim>\<open>content.includes('[ApiController]') || content.includes(': ControllerBase') ||
        content.includes(': Controller')\<close>\<close>
  cs_http_attributes :: nat
    \<comment> \<open>total number of matches of the five patterns \<^verbatim>\<open>/\[HttpGet/gi\<close>, ...,
        \<^verbatim>\<open>/\[HttpPatch/gi\<close>\<close>

record project_dir =
  dir_exists :: bool  \<comment> \<open>\<^verbatim>\<open>fs.existsSync(targetPath)\<close>\<close>
  spec_files :: "(string \<times> spec_content disk_file) list"
    \<comment> \<open>the files at the paths (relative to the directory) where a specification is looked for\<close>
  glob_openapi :: "string list"  \<comment> \<open>matches of \<^verbatim>\<open>**/openapi.{json,yaml,yml}\<close>\<close>
  glob_swagger :: "string list"  \<comment> \<open>matches of \<^verbatim>\<open>**/swagger.{json,yaml,yml}\<close>\<close>
  root_files :: "string list"
    \<comment> \<open>the names, among the Python indicators and \<^verbatim>\<open>manage.py\<close>, that exist in the directory\<close>
  py_files :: "py_content disk_file list"
    \<comment> \<open>\<^verbatim>\<open>**/*.py\<close>, ignoring virtual environments and caches (\<^verbatim>\<open>detectPython\<close>)\<close>
  py_sources :: "py_content disk_file list"
    \<comment> \<open>the same, ignoring \<^verbatim>\<open>**/test*/**\<close> too (\<^verbatim>\<open>detectFastApi\<close>, \<^verbatim>\<open>detectFlask\<close>)\<close>
  py_sources_django :: "py_content disk_file list"
    \<comment> \<open>the same, ignoring \<^verbatim>\<open>**/migrations/**\<close> too (\<^verbatim>\<open>detectDjango\<close>)\<close>
  pom_xml :: "bool disk_file"  \<comment> \<open>content: \<^verbatim>\<open>pomContent.includes('spring-boot')\<close>\<close>
  build_gradle :: "bool disk_file"  \<comment> \<open>content: \<^verbatim>\<open>gradleContent.includes('spring-boot')\<close>\<close>
  build_gradle_kts :: "bool disk_file"
  java_files :: "java_content disk_file list"  \<comment> \<open>\<^verbatim>\<open>**/*.java\<close>\<close>
  csproj_files :: "bool disk_file list"
    \<comment> \<open>\<^verbatim>\<open>**/*.csproj\<close>; content: \<^verbatim>\<open>content.includes('Microsoft.NET.Sdk.Web') ||
        content.includes('Microsoft.AspNetCore')\<close>\<close>
  cs_files :: "cs_content disk_file list"  \<comment> \<open>\<^verbatim>\<open>**/*.cs\<close>\<close>

text \<open>A directory that exists and holds nothing the detector looks for.\<close>

definition empty_dir :: project_dir where
  "empty_dir = \<lparr>dir_exists = True, spec_files = [], glob_openapi = [], glob_swagger = [],
     root_files = [], py_files = [], py_sources = [], py_sources_django = [],
     pom_xml = Absent, build_gradle = Absent, build_gradle_kts = Absent, java_files = [],
     csproj_files = [], cs_files = []\<rparr>"

definition existsSync :: "'a disk_file \<Rightarrow> bool" where
  "existsSync f = (f \<noteq> Absent)"

definition file_at :: "project_dir \<Rightarrow> string \<Rightarrow> spec_content disk_file" where
  "file_at d p = (case map_of (spec_files d) p of None \<Rightarrow> Absent | Some f \<Rightarrow> f)"

subsection \<open>\<open>ProjectDetector.detectOpenApi\<close>\<close>

text \<open>
  \<^verbatim>\<open>validateOpenApiSpec\<close>: a \<^verbatim>\<open>.json\<close> file is parsed and must have a string-valued key
  \<^verbatim>\<open>openapi\<close> or \<^verbatim>\<open>swagger\<close>; any other file must contain one of four keywords; every
  exception gives \<^verbatim>\<open>false\<close>.
\<close>

definition validateOpenApiSpec :: "string \<Rightarrow> spec_content disk_file \<Rightarrow> bool" where
  "validateOpenApiSpec filePath f =
     (case f of
        Content c \<Rightarrow>
          (if suffix ''.json'' filePath
           then (case json_keys c of None \<Rightarrow> False | Some (a, b) \<Rightarrow> a \<or> b)
           else yaml_keywords c)
      | _ \<Rightarrow> False)"

definition openapi_result :: "string \<Rightarrow> DetectionResult" where
  "openapi_result p =
     \<lparr>rtype = OPENAPI, confidence = OPENAPI_SPEC, specFile = Some p,
      estimatedEndpoints = None\<rparr>"

text \<open>
  The loop over \<^verbatim>\<open>OPENAPI_SPEC_PATTERNS\<close>: the first pattern whose file exists and validates.
\<close>

fun first_valid_pattern :: "project_dir \<Rightarrow> string list \<Rightarrow> string option" where
  "first_valid_pattern d [] = None"
| "first_valid_pattern d (p # ps) =
     (if existsSync (file_at d p) \<and> validateOpenApiSpec p (file_at d p) then Some p
      else first_valid_pattern d ps)"

text \<open>
  The loop over the two glob patterns: only the first match of each is validated.
\<close>

fun first_valid_glob :: "project_dir \<Rightarrow> string list list \<Rightarrow> string option" where
  "first_valid_glob d [] = None"
| "first_valid_glob d (matches # rest) =
     (case matches of
        [] \<Rightarrow> first_valid_glob d rest
      | m # _ \<Rightarrow>
          (if validateOpenApiSpec m (file_at d m) then Some m else first_valid_glob d rest))"

definition detectOpenApi :: "project_dir \<Rightarrow> DetectionResult option" where
  "detectOpenApi d =
     (case first_valid_pattern d OPENAPI_SPEC_PATTERNS of
        Some p \<Rightarrow> Some (openapi_result p)
      | None \<Rightarrow>
          (case first_valid_glob d [glob_openapi d, glob_swagger d] of
             Some m \<Rightarrow> Some (openapi_result m)
           | None \<Rightarrow> None))"

subsection \<open>The Python detectors\<close>

text \<open>
  Each detector returns \<^verbatim>\<open>{ score, reasons, files, endpoints }\<close>; \<^verbatim>\<open>reasons\<close> and \<^verbatim>\<open>files\<close>
  are left out.
\<close>

record framework_score =
  score :: nat
  endpoints :: nat

text \<open>
  The bonus for the number of endpoints found:
  \<^verbatim>\<open>if (endpointCount > 0) { score += Math.min(DETECTION_SCORES.MULTIPLE_ENDPOINTS, endpointCount * factor); }\<close>
\<close>

definition endpoint_bonus :: "nat \<Rightarrow> nat \<Rightarrow> nat" where
  "endpoint_bonus factor endpointCount =
     (if endpointCount > 0 then min MULTIPLE_ENDPOINTS (endpointCount * factor) else 0)"

text \<open>
  The body of the loop over the files, on the pair \<open>(score, endpointCount)\<close>. A file that
  cannot be read is skipped (\<^verbatim>\<open>catch { }\<close>).
\<close>

fun fastapi_step :: "nat \<times> nat \<Rightarrow> py_content disk_file \<Rightarrow> nat \<times> nat" where
  "fastapi_step (s, n) (Content c) =
     (s + (if fastapi_import c then CODE_PATTERN else 0)
        + (if fastapi_instance c then FRAMEWORK_FILE else 0)
        + (if api_router c then PROJECT_FILE else 0),
      n + app_routes c + router_routes c)"
| "fastapi_step (s, n) _ = (s, n)"

text \<open>The scan of the files that \<^verbatim>\<open>glob\<close> returned, and the bonus.\<close>

definition fastapi_score :: "py_content disk_file list \<Rightarrow> framework_score" where
  "fastapi_score pyFiles =
     (case foldl fastapi_step (0, 0) pyFiles of
        (s, n) \<Rightarrow> \<lparr>score = s + endpoint_bonus 5 n, endpoints = n\<rparr>)"

definition detectFastApi :: "project_dir \<Rightarrow> framework_score" where
  "detectFastApi d = fastapi_score (py_sources d)"

fun flask_step :: "nat \<times> nat \<Rightarrow> py_content disk_file \<Rightarrow> nat \<times> nat" where
  "flask_step (s, n) (Content c) =
     (s + (if flask_import c then CODE_PATTERN else 0)
        + (if flask_instance c then FRAMEWORK_FILE else 0)
        + (if blueprint c then PROJECT_FILE else 0),
      n + flask_routes c)"
| "flask_step (s, n) _ = (s, n)"

definition flask_score :: "py_content disk_file list \<Rightarrow> framework_score" where
  "flask_score pyFiles =
     (case foldl flask_step (0, 0) pyFiles of
        (s, n) \<Rightarrow> \<lparr>score = s + endpoint_bonus 5 n, endpoints = n\<rparr>)"

definition detectFlask :: "project_dir \<Rightarrow> framework_score" where
  "detectFlask d = flask_score (py_sources d)"

fun django_step :: "nat \<times> nat \<Rightarrow> py_content disk_file \<Rightarrow> nat \<times> nat" where
  "django_step (s, n) (Content c) =
     (s + (if drf_import c then CODE_PATTERN else 0)
        + (if viewset_class c then FRAMEWORK_FILE else 0)
        + (if apiview_class c then CODE_PATTERN else 0)
        + (if drf_router c then PROJECT_FILE else 0)
        + (if serializer_class c then PROJECT_FILE else 0),
      n + api_views c + (if viewset_class c then 6 else 0) + (if apiview_class c then 1 else 0))"
| "django_step (s, n) _ = (s, n)"

text \<open>\<open>hasManage\<close> is \<^verbatim>\<open>fs.existsSync(managePath)\<close>.\<close>

definition django_score :: "bool \<Rightarrow> py_content disk_file list \<Rightarrow> framework_score" where
  "django_score hasManage pyFiles =
     (case foldl django_step (if hasManage then PROJECT_FILE else 0, 0) pyFiles of
        (s, n) \<Rightarrow> \<lparr>score = s + endpoint_bonus 3 n, endpoints = n\<rparr>)"

definition detectDjango :: "project_dir \<Rightarrow> framework_score" where
  "detectDjango d = django_score (''manage.py'' \<in> set (root_files d)) (py_sources_django d)"

text \<open>
  \<^verbatim>\<open>array.sort((a, b) => b.score - a.score)\<close> is a stable sort by decreasing score, and so
  is \<^const>\<open>sort_key\<close> with the negated score as key.
\<close>

definition detectPython :: "project_dir \<Rightarrow> DetectionResult option" where
  "detectPython d =
     (let isPython = list_ex (\<lambda>indicator. indicator \<in> set (root_files d)) pythonIndicators
      in if \<not> isPython \<and> py_files d = [] then None
         else
           (let scores = sort_key (\<lambda>(t, r). - int (score r))
                  [(FASTAPI, detectFastApi d), (FLASK, detectFlask d),
                   (DJANGO_REST, detectDjango d)]
            in case hd scores of
                 (t, best) \<Rightarrow>
                   (if score best \<ge> MIN_CONFIDENCE_THRESHOLD
                    then Some \<lparr>rtype = t, confidence = score best, specFile = None,
                               estimatedEndpoints = Some (endpoints best)\<rparr>
                    else None)))"

subsection \<open>\<open>ProjectDetector.detectJava\<close> and \<open>ProjectDetector.detectDotNet\<close>\<close>

text \<open>
  \<^verbatim>\<open>detectJava\<close> reads \<^verbatim>\<open>pom.xml\<close> and the Gradle build file outside any \<^verbatim>\<open>try\<close>: a file that
  exists and cannot be read makes the whole detection throw.
\<close>

datatype detect_error = ReadError string

fun java_step :: "nat \<times> nat \<Rightarrow> java_content disk_file \<Rightarrow> nat \<times> nat" where
  "java_step (s, n) (Content c) =
     (if java_controller c then (s + CODE_PATTERN, n + java_mappings c) else (s, n))"
| "java_step (s, n) _ = (s, n)"

text \<open>
  The scan of the Java files, from the score \<open>s0\<close> that the build files gave, and the bonus.
\<close>

definition java_score :: "nat \<Rightarrow> java_content disk_file list \<Rightarrow> framework_score" where
  "java_score s0 javaFiles =
     (case foldl java_step (s0, 0) javaFiles of
        (s, n) \<Rightarrow> \<lparr>score = s + endpoint_bonus 3 n, endpoints = n\<rparr>)"

text \<open>The end of \<^verbatim>\<open>detectJava\<close> and of \<^verbatim>\<open>detectDotNet\<close>: the threshold and the cap.\<close>

definition capped_result :: "ProjectType \<Rightarrow> framework_score \<Rightarrow> DetectionResult option" where
  "capped_result t r =
     (if score r < MIN_CONFIDENCE_THRESHOLD then None
      else Some \<lparr>rtype = t, confidence = min (score r) 100, specFile = None,
                 estimatedEndpoints = Some (endpoints r)\<rparr>)"

definition detectJava :: "project_dir \<Rightarrow> detect_error + DetectionResult option" where
  "detectJava d =
     (let hasMaven = existsSync (pom_xml d);
          hasGradle = (existsSync (build_gradle d) \<or> existsSync (build_gradle_kts d))
      in if \<not> hasMaven \<and> \<not> hasGradle then Inr None
         else
           (case (if hasMaven then pom_xml d else Content False) of
              Content pomSpring \<Rightarrow>
                (let gradleFile =
                       (if existsSync (build_gradle d) then build_gradle d else build_gradle_kts d)
                 in case (if hasGradle then gradleFile else Content False) of
                      Content gradleSpring \<Rightarrow>
                        Inr (capped_result SPRING_BOOT
                               (java_score
                                  (PROJECT_FILE + (if pomSpring then FRAMEWORK_FILE else 0)
                                     + (if gradleSpring then FRAMEWORK_FILE else 0))
                                  (java_files d)))
                    | _ \<Rightarrow> Inl (ReadError ''build.gradle''))
            | _ \<Rightarrow> Inl (ReadError ''pom.xml'')))"

fun csproj_step :: "nat \<Rightarrow> bool disk_file \<Rightarrow> nat" where
  "csproj_step s (Content web) = (if web then s + FRAMEWORK_FILE else s)"
| "csproj_step s _ = s"

fun cs_step :: "nat \<times> nat \<Rightarrow> cs_content disk_file \<Rightarrow> nat \<times> nat" where
  "cs_step (s, n) (Content c) =
     (if cs_controller c then (s + CODE_PATTERN, n + cs_http_attributes c) else (s, n))"
| "cs_step (s, n) _ = (s, n)"

definition dotnet_score :: "bool disk_file list \<Rightarrow> cs_content disk_file list \<Rightarrow> framework_score" where
  "dotnet_score csprojFiles csFiles =
     (case foldl cs_step (foldl csproj_step PROJECT_FILE csprojFiles, 0) csFiles of
        (s, n) \<Rightarrow> \<lparr>score = s + endpoint_bonus 3 n, endpoints = n\<rparr>)"

definition detectDotNet :: "project_dir \<Rightarrow> DetectionResult option" where
  "detectDotNet d =
     (if csproj_files d = [] then None
      else capped_result ASPNET_CORE (dotnet_score (csproj_files d) (cs_files d)))"

subsection \<open>More route matches, everything else unchanged\<close>

text \<open>
  \<open>g\<close> is the file \<open>f\<close> with route decorators added: the counts of route matches may have
  grown, every other test on the content has the same answer.
\<close>

fun more_py_routes :: "py_content disk_file \<Rightarrow> py_content disk_file \<Rightarrow> bool" where
  "more_py_routes (Content c) (Content c') =
     (c' = c\<lparr>app_routes := app_routes c', router_routes := router_routes c',
              flask_routes := flask_routes c', api_views := api_views c'\<rparr>
      \<and> app_routes c \<le> app_routes c' \<and> router_routes c \<le> router_routes c'
      \<and> flask_routes c \<le> flask_routes c' \<and> api_views c \<le> api_views c')"
| "more_py_routes f g = (f = g)"

fun more_java_routes :: "java_content disk_file \<Rightarrow> java_content disk_file \<Rightarrow> bool" where
  "more_java_routes (Content c) (Content c') =
     (java_controller c' = java_controller c \<and> java_mappings c \<le> java_mappings c')"
| "more_java_routes f g = (f = g)"

fun more_cs_routes :: "cs_content disk_file \<Rightarrow> cs_content disk_file \<Rightarrow> bool" where
  "more_cs_routes (Content c) (Content c') =
     (cs_controller c' = cs_controller c \<and> cs_http_attributes c \<le> cs_http_attributes c')"
| "more_cs_routes f g = (f = g)"

subsection \<open>\<open>ProjectDetector.detect\<close>\<close>

definition createUnknownResult :: DetectionResult where
  "createUnknownResult =
     \<lparr>rtype = UNKNOWN, confidence = 0, specFile = None, estimatedEndpoints = None\<rparr>"

text \<open>\<^verbatim>\<open>if (result) { results.push(result); }\<close>\<close>

definition pushed :: "'a option \<Rightarrow> 'a list" where
  "pushed r = (case r of None \<Rightarrow> [] | Some x \<Rightarrow> [x])"

text \<open>
  The four detectors run one after the other and their results are collected in this
  order; the list is sorted by decreasing confidence (a stable sort) and its first
  element is returned if it reaches the threshold.
\<close>

definition detect :: "project_dir \<Rightarrow> detect_error + DetectionResult" where
  "detect d =
     (if \<not> dir_exists d then Inr createUnknownResult
      else
        (case detectJava d of
           Inl e \<Rightarrow> Inl e
         | Inr javaResult \<Rightarrow>
             (let results = pushed (detectOpenApi d) @ pushed (detectPython d)
                              @ pushed javaResult @ pushed (detectDotNet d)
              in if results = [] then Inr createUnknownResult
                 else
                   (let bestResult = hd (sort_key (\<lambda>r. - int (confidence r)) results)
                    in if confidence bestResult < MIN_CONFIDENCE_THRESHOLD
                       then Inr createUnknownResult
                       else Inr bestResult))))"

subsection \<open>Example directories\<close>

text \<open>A Python file that imports FastAPI and declares no route.\<close>

definition fastapi_file :: "py_content disk_file" where
  "fastapi_file = Content (plain_py\<lparr>fastapi_import := True\<rparr>)"

text \<open>A project with \<^verbatim>\<open>requirements.txt\<close> and two such files.\<close>

definition two_fastapi_files :: project_dir where
  "two_fastapi_files =
     empty_dir\<lparr>root_files := [''requirements.txt''],
       py_files := [fastapi_file, fastapi_file],
       py_sources := [fastapi_file, fastapi_file],
       py_sources_django := [fastapi_file, fastapi_file]\<rparr>"



subsection \<open>Registered and found ViewSets\<close>







subsection \<open>The tag map and example endpoints\<close>

text \<open>
  The state of \<^verbatim>\<open>tagMap\<close> after the endpoints \<open>eps\<close> have been distributed: the keys are
  distinct, each entry holds the endpoints of its name in their order, and every
  endpoint has an entry.
\<close>

definition tag_inv ::
  "ApiEndpoint list \<Rightarrow> (string \<times> string option \<times> ApiEndpoint list) list \<Rightarrow> bool" where
  "tag_inv eps m =
     (distinct (map fst m)
      \<and> (\<forall>k d es. map_of m k = Some (d, es) \<longrightarrow> es = filter (\<lambda>e. tagName e = k) eps)
      \<and> (\<forall>e\<in>set eps. map_of m (tagName e) \<noteq> None))"

text \<open>An endpoint \<open>GET\<close> on a path, with the tags given.\<close>

definition tagged :: "string list option \<Rightarrow> string \<Rightarrow> ApiEndpoint" where
  "tagged ts p = \<lparr>ep_method = GET, ep_path = p, ep_tags = ts, ep_parameters = [],
     ep_responses = []\<rparr>"


subsection \<open>Placeholders and path parameters\<close>






section \<open>Path normalization\<close>

lemma no_double_slash_Cons:
  "no_double_slash (c # s) = ((c = CHR ''/'' \<longrightarrow> s = [] \<or> hd s \<noteq> CHR ''/'') \<and> no_double_slash s)"
  by (cases s) auto

lemma collapse_slashes_no_double: "no_double_slash (collapse_slashes s)"
proof (induction s rule: collapse_slashes.induct)
  case 1
  show ?case by simp
next
  case (2 c cs)
  show ?case
  proof (cases "c = CHR ''/''")
    case True
    define r where "r = dropWhile (\<lambda>d. d = CHR ''/'') cs"
    have ih: "no_double_slash (collapse_slashes r)"
      using 2 True by (simp add: r_def)
    have "collapse_slashes r = [] \<or> hd (collapse_slashes r) \<noteq> CHR ''/''"
    proof (cases r)
      case Nil
      then show ?thesis by simp
    next
      case (Cons d ds)
      then have "d \<noteq> CHR ''/''"
        using hd_dropWhile [of "\<lambda>d. d = CHR ''/''" cs] by (auto simp: r_def)
      with Cons show ?thesis by simp
    qed
    with ih have "no_double_slash (CHR ''/'' # collapse_slashes r)"
      by (simp add: no_double_slash_Cons del: no_double_slash.simps)
    with True show ?thesis
      by (simp add: r_def)
  next
    case False
    with 2 show ?thesis
      by (simp add: no_double_slash_Cons del: no_double_slash.simps)
  qed
qed

lemma normalizePath_starts_with_slash: "prefix ''/'' (normalizePath p)"
proof -
  define n1 where "n1 = (if prefix ''/'' p then p else ''/'' @ p)"
  define n2 where "n2 = (if length n1 > 1 \<and> suffix ''/'' n1 then butlast n1 else n1)"
  have n1: "\<exists>t. n1 = CHR ''/'' # t"
    by (auto simp: n1_def prefix_def)
  then obtain t where t: "n1 = CHR ''/'' # t" ..
  have "\<exists>u. n2 = CHR ''/'' # u"
    by (cases t) (auto simp: n2_def t)
  then obtain u where "n2 = CHR ''/'' # u" ..
  moreover have "normalizePath p = collapse_slashes n2"
    by (simp add: normalizePath_def n1_def n2_def Let_def)
  ultimately show ?thesis
    by (simp add: prefix_def)
qed

lemma normalizePath_no_double_slash: "no_double_slash (normalizePath p)"
  by (simp add: normalizePath_def Let_def collapse_slashes_no_double)

text \<open>
  Claim C2. Every string returned by \<open>normalizePath\<close> starts with \<open>/\<close>, does not end with
  \<open>/\<close> unless it is exactly \<open>/\<close>, and contains no \<open>//\<close>. The code strips one trailing slash
  before it collapses the runs of slashes, so for the input \<open>users//\<close> it returns \<open>/users/\<close>,
  which ends with a slash: the second condition fails there (the other two hold for
  every input, see \<open>normalizePath_starts_with_slash\<close> and \<open>normalizePath_no_double_slash\<close>).
  The FastAPI extractor reaches such an input with a router of prefix \<^verbatim>\<open>/users/\<close> and a route
  on \<^verbatim>\<open>/\<close>.
\<close>

theorem normalizePath_trailing_slash_kept:
  "normalizePath ''users//'' = ''/users/'' \<and> suffix ''/'' (normalizePath ''users//'')
   \<and> normalizePath ''users//'' \<noteq> ''/''
   \<and> ep_path (fastapi_routeToEndpoint [(''router'', ''/users/'')] []
         \<lparr>fr_method = GET, fr_path = ''/'', fr_routerName = ''router'', fr_funcParams = []\<rparr>)
       = ''/users/''"
  by code_simp

section \<open>Framework detection\<close>

subsection \<open>The confidence of a Python project\<close>

text \<open>
  Claim C3. The confidence that the detector returns is between 0 and 100. \<^verbatim>\<open>detectJava\<close>
  and \<^verbatim>\<open>detectDotNet\<close> return \<^verbatim>\<open>Math.min(score, 100)\<close>, \<^verbatim>\<open>detectPython\<close> returns the
  score as it is: a project with \<^verbatim>\<open>requirements.txt\<close> and two files that import FastAPI
  scores 60 for each file and is returned with confidence 120.
\<close>

theorem python_confidence_uncapped:
  "detect two_fastapi_files
     = Inr \<lparr>rtype = FASTAPI, confidence = 120, specFile = None, estimatedEndpoints = Some 0\<rparr>"
  by code_simp

subsection \<open>The specification file and the other detectors\<close>









subsection \<open>Monotonicity of the score\<close>

lemma endpoint_bonus_mono: "m \<le> n \<Longrightarrow> endpoint_bonus k m \<le> endpoint_bonus k n"
proof (cases "m = 0")
  case True
  then show ?thesis by (simp add: endpoint_bonus_def)
next
  case False
  assume "m \<le> n"
  then have "m * k \<le> n * k" by (rule mult_le_mono1)
  then have "min MULTIPLE_ENDPOINTS (m * k) \<le> min MULTIPLE_ENDPOINTS (n * k)"
    by (simp add: min_le_iff_disj)
  with False \<open>m \<le> n\<close> show ?thesis by (simp add: endpoint_bonus_def)
qed

lemma endpoint_bonus_le: "endpoint_bonus k n \<le> MULTIPLE_ENDPOINTS"
  by (simp add: endpoint_bonus_def)

lemma more_py_routes_ContentD:
  assumes "more_py_routes (Content c) g"
  obtains c' where "g = Content c'"
    "c' = c\<lparr>app_routes := app_routes c', router_routes := router_routes c',
              flask_routes := flask_routes c', api_views := api_views c'\<rparr>"
    "app_routes c \<le> app_routes c'" "router_routes c \<le> router_routes c'"
    "flask_routes c \<le> flask_routes c'" "api_views c \<le> api_views c'"
  using assms by (cases g) auto

lemma more_py_routes_same:
  assumes "c' = c\<lparr>app_routes := a, router_routes := r, flask_routes := f, api_views := v\<rparr>"
  shows "fastapi_import c' = fastapi_import c" "fastapi_instance c' = fastapi_instance c"
    "api_router c' = api_router c" "flask_import c' = flask_import c"
    "flask_instance c' = flask_instance c" "blueprint c' = blueprint c"
    "drf_import c' = drf_import c" "viewset_class c' = viewset_class c"
    "apiview_class c' = apiview_class c" "drf_router c' = drf_router c"
    "serializer_class c' = serializer_class c"
  by (simp_all add: assms)

text \<open>
  Two scans of file lists that differ in the route matches only end with the same score
  and with ordered endpoint counts.
\<close>

lemma fastapi_fold_more:
  "list_all2 more_py_routes fs gs \<Longrightarrow> n \<le> n' \<Longrightarrow>
   \<exists>b m m'. foldl fastapi_step (s, n) fs = (b, m) \<and> foldl fastapi_step (s, n') gs = (b, m')
     \<and> m \<le> m'"
proof (induction fs gs arbitrary: s n n' rule: list_all2_induct)
  case Nil
  then show ?case by simp
next
  case (Cons f fs g gs)
  show ?case
  proof (cases f)
    case (Content c)
    with Cons.hyps(1) obtain c' where g: "g = Content c'"
      and eq: "c' = c\<lparr>app_routes := app_routes c', router_routes := router_routes c',
              flask_routes := flask_routes c', api_views := api_views c'\<rparr>"
      and le: "app_routes c \<le> app_routes c'" "router_routes c \<le> router_routes c'"
      by (auto elim: more_py_routes_ContentD)
    note same = more_py_routes_same [OF eq]
    have "n + app_routes c + router_routes c \<le> n' + app_routes c' + router_routes c'"
      using le Cons.prems by simp
    from Cons.IH [OF this] show ?thesis
      by (simp add: Content g same)
  next
    case Absent
    with Cons.hyps(1) have "g = Absent" by simp
    with Absent Cons.IH [OF Cons.prems] show ?thesis by simp
  next
    case Unreadable
    with Cons.hyps(1) have "g = Unreadable" by simp
    with Unreadable Cons.IH [OF Cons.prems] show ?thesis by simp
  qed
qed

lemma flask_fold_more:
  "list_all2 more_py_routes fs gs \<Longrightarrow> n \<le> n' \<Longrightarrow>
   \<exists>b m m'. foldl flask_step (s, n) fs = (b, m) \<and> foldl flask_step (s, n') gs = (b, m')
     \<and> m \<le> m'"
proof (induction fs gs arbitrary: s n n' rule: list_all2_induct)
  case Nil
  then show ?case by simp
next
  case (Cons f fs g gs)
  show ?case
  proof (cases f)
    case (Content c)
    with Cons.hyps(1) obtain c' where g: "g = Content c'"
      and eq: "c' = c\<lparr>app_routes := app_routes c', router_routes := router_routes c',
              flask_routes := flask_routes c', api_views := api_views c'\<rparr>"
      and le: "flask_routes c \<le> flask_routes c'"
      by (auto elim: more_py_routes_ContentD)
    note same = more_py_routes_same [OF eq]
    have "n + flask_routes c \<le> n' + flask_routes c'"
      using le Cons.prems by simp
    from Cons.IH [OF this] show ?thesis
      by (simp add: Content g same)
  next
    case Absent
    with Cons.hyps(1) have "g = Absent" by simp
    with Absent Cons.IH [OF Cons.prems] show ?thesis by simp
  next
    case Unreadable
    with Cons.hyps(1) have "g = Unreadable" by simp
    with Unreadable Cons.IH [OF Cons.prems] show ?thesis by simp
  qed
qed

lemma django_fold_more:
  "list_all2 more_py_routes fs gs \<Longrightarrow> n \<le> n' \<Longrightarrow>
   \<exists>b m m'. foldl django_step (s, n) fs = (b, m) \<and> foldl django_step (s, n') gs = (b, m')
     \<and> m \<le> m'"
proof (induction fs gs arbitrary: s n n' rule: list_all2_induct)
  case Nil
  then show ?case by simp
next
  case (Cons f fs g gs)
  show ?case
  proof (cases f)
    case (Content c)
    with Cons.hyps(1) obtain c' where g: "g = Content c'"
      and eq: "c' = c\<lparr>app_routes := app_routes c', router_routes := router_routes c',
              flask_routes := flask_routes c', api_views := api_views c'\<rparr>"
      and le: "api_views c \<le> api_views c'"
      by (auto elim: more_py_routes_ContentD)
    note same = more_py_routes_same [OF eq]
    have "n + api_views c + (if viewset_class c then 6 else 0) + (if apiview_class c then 1 else 0)
       \<le> n' + api_views c' + (if viewset_class c then 6 else 0)
            + (if apiview_class c then 1 else 0)"
      using le Cons.prems by simp
    from Cons.IH [OF this] show ?thesis
      by (simp add: Content g same)
  next
    case Absent
    with Cons.hyps(1) have "g = Absent" by simp
    with Absent Cons.IH [OF Cons.prems] show ?thesis by simp
  next
    case Unreadable
    with Cons.hyps(1) have "g = Unreadable" by simp
    with Unreadable Cons.IH [OF Cons.prems] show ?thesis by simp
  qed
qed

lemma java_fold_more:
  "list_all2 more_java_routes fs gs \<Longrightarrow> n \<le> n' \<Longrightarrow>
   \<exists>b m m'. foldl java_step (s, n) fs = (b, m) \<and> foldl java_step (s, n') gs = (b, m')
     \<and> m \<le> m'"
proof (induction fs gs arbitrary: s n n' rule: list_all2_induct)
  case Nil
  then show ?case by simp
next
  case (Cons f fs g gs)
  show ?case
  proof (cases f)
    case (Content c)
    with Cons.hyps(1) obtain c' where g: "g = Content c'"
      and same: "java_controller c' = java_controller c"
      and le: "java_mappings c \<le> java_mappings c'"
      by (cases g) auto
    have "n + java_mappings c \<le> n' + java_mappings c'"
      using le Cons.prems by simp
    from Cons.IH [OF this] Cons.IH [OF Cons.prems] show ?thesis
      by (simp add: Content g same)
  next
    case Absent
    with Cons.hyps(1) have "g = Absent" by simp
    with Absent Cons.IH [OF Cons.prems] show ?thesis by simp
  next
    case Unreadable
    with Cons.hyps(1) have "g = Unreadable" by simp
    with Unreadable Cons.IH [OF Cons.prems] show ?thesis by simp
  qed
qed

lemma cs_fold_more:
  "list_all2 more_cs_routes fs gs \<Longrightarrow> n \<le> n' \<Longrightarrow>
   \<exists>b m m'. foldl cs_step (s, n) fs = (b, m) \<and> foldl cs_step (s, n') gs = (b, m')
     \<and> m \<le> m'"
proof (induction fs gs arbitrary: s n n' rule: list_all2_induct)
  case Nil
  then show ?case by simp
next
  case (Cons f fs g gs)
  show ?case
  proof (cases f)
    case (Content c)
    with Cons.hyps(1) obtain c' where g: "g = Content c'"
      and same: "cs_controller c' = cs_controller c"
      and le: "cs_http_attributes c \<le> cs_http_attributes c'"
      by (cases g) auto
    have "n + cs_http_attributes c \<le> n' + cs_http_attributes c'"
      using le Cons.prems by simp
    from Cons.IH [OF this] Cons.IH [OF Cons.prems] show ?thesis
      by (simp add: Content g same)
  next
    case Absent
    with Cons.hyps(1) have "g = Absent" by simp
    with Absent Cons.IH [OF Cons.prems] show ?thesis by simp
  next
    case Unreadable
    with Cons.hyps(1) have "g = Unreadable" by simp
    with Unreadable Cons.IH [OF Cons.prems] show ?thesis by simp
  qed
qed

text \<open>The same base score with a larger endpoint count: the bonus grows, by 80 at most.\<close>

lemma score_more:
  assumes "\<exists>b m m'. x = (b, m) \<and> y = (b, m') \<and> m \<le> m'"
  shows "score (case x of (s, n) \<Rightarrow> \<lparr>score = s + endpoint_bonus k n, endpoints = n\<rparr>)
           \<le> score (case y of (s, n) \<Rightarrow> \<lparr>score = s + endpoint_bonus k n, endpoints = n\<rparr>)
         \<and> score (case y of (s, n) \<Rightarrow> \<lparr>score = s + endpoint_bonus k n, endpoints = n\<rparr>)
           \<le> score (case x of (s, n) \<Rightarrow> \<lparr>score = s + endpoint_bonus k n, endpoints = n\<rparr>)
               + MULTIPLE_ENDPOINTS"
proof -
  from assms obtain b m m' where "x = (b, m)" "y = (b, m')" "m \<le> m'" by blast
  then show ?thesis
    using endpoint_bonus_mono [of m m' k] endpoint_bonus_le [of k m']
    by (simp add: trans_le_add2)
qed

text \<open>
  Claim C8. With every other signal fixed, more matches of the route decorators never
  decrease the score of a framework (FastAPI, Flask, Django REST, Spring Boot, ASP.NET
  Core), and they raise it by at most \<^verbatim>\<open>MULTIPLE_ENDPOINTS\<close>: the bonus for the endpoints,
  \<^verbatim>\<open>Math.min(MULTIPLE_ENDPOINTS, endpointCount * factor)\<close>, never exceeds this ceiling and
  stays at it once \<^verbatim>\<open>endpointCount * factor\<close> has reached it.
\<close>

theorem detection_score_monotone:
  assumes py: "list_all2 more_py_routes pyFiles pyFiles'"
    and java: "list_all2 more_java_routes javaFiles javaFiles'"
    and cs: "list_all2 more_cs_routes csFiles csFiles'"
  shows "(score (fastapi_score pyFiles) \<le> score (fastapi_score pyFiles')
       \<and> score (fastapi_score pyFiles') \<le> score (fastapi_score pyFiles) + MULTIPLE_ENDPOINTS)
    \<and> (score (flask_score pyFiles) \<le> score (flask_score pyFiles')
       \<and> score (flask_score pyFiles') \<le> score (flask_score pyFiles) + MULTIPLE_ENDPOINTS)
    \<and> (score (django_score hasManage pyFiles) \<le> score (django_score hasManage pyFiles')
       \<and> score (django_score hasManage pyFiles')
            \<le> score (django_score hasManage pyFiles) + MULTIPLE_ENDPOINTS)
    \<and> (score (java_score base javaFiles) \<le> score (java_score base javaFiles')
       \<and> score (java_score base javaFiles')
            \<le> score (java_score base javaFiles) + MULTIPLE_ENDPOINTS)
    \<and> (score (dotnet_score csprojFiles csFiles) \<le> score (dotnet_score csprojFiles csFiles')
       \<and> score (dotnet_score csprojFiles csFiles')
            \<le> score (dotnet_score csprojFiles csFiles) + MULTIPLE_ENDPOINTS)
    \<and> endpoint_bonus factor n \<le> MULTIPLE_ENDPOINTS
    \<and> (MULTIPLE_ENDPOINTS \<le> n * factor \<longrightarrow> endpoint_bonus factor n = MULTIPLE_ENDPOINTS)"
proof (intro conjI)
  show "score (fastapi_score pyFiles) \<le> score (fastapi_score pyFiles')"
    and "score (fastapi_score pyFiles') \<le> score (fastapi_score pyFiles) + MULTIPLE_ENDPOINTS"
    unfolding fastapi_score_def
    using score_more [OF fastapi_fold_more [OF py order_refl]] by blast+
  show "score (flask_score pyFiles) \<le> score (flask_score pyFiles')"
    and "score (flask_score pyFiles') \<le> score (flask_score pyFiles) + MULTIPLE_ENDPOINTS"
    unfolding flask_score_def
    using score_more [OF flask_fold_more [OF py order_refl]] by blast+
  show "score (django_score hasManage pyFiles) \<le> score (django_score hasManage pyFiles')"
    and "score (django_score hasManage pyFiles')
            \<le> score (django_score hasManage pyFiles) + MULTIPLE_ENDPOINTS"
    unfolding django_score_def
    using score_more [OF django_fold_more [OF py order_refl]] by blast+
  show "score (java_score base javaFiles) \<le> score (java_score base javaFiles')"
    and "score (java_score base javaFiles') \<le> score (java_score base javaFiles) + MULTIPLE_ENDPOINTS"
    unfolding java_score_def
    using score_more [OF java_fold_more [OF java order_refl]] by blast+
  show "score (dotnet_score csprojFiles csFiles) \<le> score (dotnet_score csprojFiles csFiles')"
    and "score (dotnet_score csprojFiles csFiles')
            \<le> score (dotnet_score csprojFiles csFiles) + MULTIPLE_ENDPOINTS"
    unfolding dotnet_score_def
    using score_more [OF cs_fold_more [OF cs order_refl]] by blast+
  show "endpoint_bonus factor n \<le> MULTIPLE_ENDPOINTS"
    by (rule endpoint_bonus_le)
  show "MULTIPLE_ENDPOINTS \<le> n * factor \<longrightarrow> endpoint_bonus factor n = MULTIPLE_ENDPOINTS"
    by (auto simp: endpoint_bonus_def MULTIPLE_ENDPOINTS_def)
qed

theorem detection_score_monotone_witness:
  "list_all2 more_py_routes
     [Content (plain_py\<lparr>fastapi_import := True, app_routes := 1\<rparr>), Unreadable]
     [Content (plain_py\<lparr>fastapi_import := True, app_routes := 30\<rparr>), Unreadable]
   \<and> list_all2 more_java_routes
     [Content \<lparr>java_controller = True, java_mappings = 2\<rparr>]
     [Content \<lparr>java_controller = True, java_mappings = 3\<rparr>]
   \<and> list_all2 more_cs_routes
     [Content \<lparr>cs_controller = True, cs_http_attributes = 0\<rparr>]
     [Content \<lparr>cs_controller = True, cs_http_attributes = 1\<rparr>]
   \<and> score (fastapi_score [Content (plain_py\<lparr>fastapi_import := True, app_routes := 1\<rparr>),
         Unreadable]) = 65
   \<and> score (fastapi_score [Content (plain_py\<lparr>fastapi_import := True, app_routes := 30\<rparr>),
         Unreadable]) = 140
   \<and> score (java_score 20 [Content \<lparr>java_controller = True, java_mappings = 2\<rparr>])
       \<le> score (java_score 20 [Content \<lparr>java_controller = True, java_mappings = 3\<rparr>])
   \<and> score (dotnet_score [] [Content \<lparr>cs_controller = True, cs_http_attributes = 0\<rparr>])
       \<le> score (dotnet_score [] [Content \<lparr>cs_controller = True, cs_http_attributes = 1\<rparr>])
   \<and> MULTIPLE_ENDPOINTS \<le> 30 * 5 \<and> endpoint_bonus 5 30 = MULTIPLE_ENDPOINTS"
proof -
  let ?p = "[Content (plain_py\<lparr>fastapi_import := True, app_routes := 1\<rparr>), Unreadable]"
  let ?p' = "[Content (plain_py\<lparr>fastapi_import := True, app_routes := 30\<rparr>), Unreadable]"
  let ?j = "[Content \<lparr>java_controller = True, java_mappings = 2\<rparr>]"
  let ?j' = "[Content \<lparr>java_controller = True, java_mappings = 3\<rparr>]"
  let ?c = "[Content \<lparr>cs_controller = True, cs_http_attributes = 0\<rparr>]"
  let ?c' = "[Content \<lparr>cs_controller = True, cs_http_attributes = 1\<rparr>]"
  have 1: "list_all2 more_py_routes ?p ?p'" by code_simp
  have 2: "list_all2 more_java_routes ?j ?j'" by code_simp
  have 3: "list_all2 more_cs_routes ?c ?c'" by code_simp
  have 4: "score (fastapi_score ?p) = 65" by code_simp
  have 5: "score (fastapi_score ?p') = 140" by code_simp
  have 6: "MULTIPLE_ENDPOINTS \<le> 30 * 5" by code_simp
  from detection_score_monotone
    [OF 1 2 3, where ?base = 20 and ?csprojFiles = "[]" and ?factor = 5 and ?n = 30]
    1 2 3 4 5 6
  show ?thesis
    by blast
qed

section \<open>Parameter locations\<close>

lemma of_char_lower_char:
  "\<not> (65 \<le> (of_char (lower_char c) :: nat) \<and> (of_char (lower_char c) :: nat) \<le> 90)"
proof -
  have "(of_char c :: nat) < 256" by simp
  then show ?thesis
    by (auto simp: lower_char_def Let_def)
qed

lemma toLowerCase_no_upper:
  "d \<in> set (toLowerCase s) \<Longrightarrow> \<not> (65 \<le> (of_char d :: nat) \<and> (of_char d :: nat) \<le> 90)"
  using of_char_lower_char by (auto simp: toLowerCase_def)

text \<open>
  A lower-cased string is none of the ten method names of \<^verbatim>\<open>Object.prototype\<close>, which
  all have a capital letter.
\<close>

lemma Object_prototype_get_lower:
  assumes "toLowerCase s \<noteq> ''constructor''" "toLowerCase s \<noteq> ''__proto__''"
  shows "Object_prototype_get (toLowerCase s) = None"
proof -
  have "toLowerCase s \<noteq> k"
    if "d \<in> set k" "65 \<le> (of_char d :: nat)" "(of_char d :: nat) \<le> 90" for k d
    using that toLowerCase_no_upper [of d s] by auto
  note u = this
  have "toLowerCase s \<noteq> ''__defineGetter__''" by (rule u [of "CHR ''G''"]) simp_all
  moreover have "toLowerCase s \<noteq> ''__defineSetter__''" by (rule u [of "CHR ''S''"]) simp_all
  moreover have "toLowerCase s \<noteq> ''hasOwnProperty''" by (rule u [of "CHR ''O''"]) simp_all
  moreover have "toLowerCase s \<noteq> ''__lookupGetter__''" by (rule u [of "CHR ''G''"]) simp_all
  moreover have "toLowerCase s \<noteq> ''__lookupSetter__''" by (rule u [of "CHR ''S''"]) simp_all
  moreover have "toLowerCase s \<noteq> ''isPrototypeOf''" by (rule u [of "CHR ''P''"]) simp_all
  moreover have "toLowerCase s \<noteq> ''propertyIsEnumerable''" by (rule u [of "CHR ''I''"]) simp_all
  moreover have "toLowerCase s \<noteq> ''toString''" by (rule u [of "CHR ''S''"]) simp_all
  moreover have "toLowerCase s \<noteq> ''valueOf''" by (rule u [of "CHR ''O''"]) simp_all
  moreover have "toLowerCase s \<noteq> ''toLocaleString''" by (rule u [of "CHR ''L''"]) simp_all
  ultimately show ?thesis
    using assms by (simp add: Object_prototype_get_def)
qed

text \<open>
  Away from the four locations and from the two inherited names that are in lower case,
  the default is \<open>PATH\<close>.
\<close>

lemma parseParameterLocation_default:
  assumes "toLowerCase location \<notin> set [''path'', ''query'', ''header'', ''cookie'']"
    and "toLowerCase location \<notin> set [''constructor'', ''__proto__'']"
  shows "parseParameterLocation location = Own PATH"
proof -
  have "map_of locations (toLowerCase location) = None"
    using assms(1) by (simp add: locations_def)
  moreover have "Object_prototype_get (toLowerCase location) = None"
    using assms(2) by (intro Object_prototype_get_lower) simp_all
  ultimately show ?thesis
    by (simp add: parseParameterLocation_def object_get_def)
qed

text \<open>
  Claim C10. For every string whose lower-case form is none of \<open>path\<close>, \<open>query\<close>, \<open>header\<close>,
  \<open>cookie\<close>, \<^verbatim>\<open>parseParameterLocation\<close> returns \<open>PATH\<close>. The lookup \<^verbatim>\<open>locations[lower]\<close> in
  the object literal also finds what the literal inherits: for \<open>constructor\<close> it finds the
  function \<^verbatim>\<open>Object\<close>, which is truthy and is returned in place of a location; the
  parameter of the OpenAPI document that declares \<^verbatim>\<open>in: constructor\<close> is emitted with it.
\<close>

theorem parseParameterLocation_inherited:
  "parseParameterLocation ''constructor'' = Inherited Object_constructor
   \<and> convertParameter \<lparr>oa_name = ''id'', oa_in = ''constructor'', oa_required = Some True\<rparr>
       = \<lparr>param_name = ''id'', param_in = Inherited Object_constructor, param_required = True\<rparr>"
  by code_simp

section \<open>Response status codes\<close>








section \<open>Parsing the specification\<close>


section \<open>The map of a JavaScript \<open>Map\<close>\<close>

lemma map_of_Map_set: "map_of (Map_set k v m) = (map_of m)(k \<mapsto> v)"
  by (induction m) (auto simp: fun_eq_iff)

lemma keys_Map_set: "fst ` set (Map_set k v m) = insert k (fst ` set m)"
proof (induction m)
  case Nil
  show ?case by simp
next
  case (Cons a m)
  obtain k' v' where a: "a = (k', v')" by (cases a)
  show ?case
  proof (cases "k' = k")
    case True
    then show ?thesis by (simp add: a)
  next
    case False
    then show ?thesis by (simp add: a Cons.IH insert_commute)
  qed
qed


lemma distinct_Map_set: "distinct (map fst m) \<Longrightarrow> distinct (map fst (Map_set k v m))"
proof (induction m)
  case Nil
  then show ?case by simp
next
  case (Cons a m)
  obtain k' v' where a: "a = (k', v')" by (cases a)
  show ?case
  proof (cases "k' = k")
    case True
    with Cons.prems a show ?thesis by simp
  next
    case False
    with Cons a keys_Map_set [of k v m] show ?thesis by auto
  qed
qed

section \<open>Grouping by tag\<close>

lemma add_to_tag_map_of:
  "map_of (add_to_tag m e) =
     (map_of m)(tagName e \<mapsto>
        (case map_of m (tagName e) of
           Some (d, es) \<Rightarrow> (d, es @ [e])
         | None \<Rightarrow> (None, [e])))"
  by (auto simp: add_to_tag_def Let_def Map_has_def Map_get_def map_of_Map_set fun_eq_iff
      split: option.splits)

lemma add_to_tag_distinct:
  "distinct (map fst m) \<Longrightarrow> distinct (map fst (add_to_tag m e))"
  by (auto simp: add_to_tag_def Let_def distinct_Map_set split: option.splits)

lemma tag_inv_step:
  assumes "tag_inv eps m"
  shows "tag_inv (eps @ [e]) (add_to_tag m e)"
proof -
  from assms have d: "distinct (map fst m)"
    and f: "\<And>k d es. map_of m k = Some (d, es) \<Longrightarrow> es = filter (\<lambda>e. tagName e = k) eps"
    and c: "\<And>x. x \<in> set eps \<Longrightarrow> map_of m (tagName x) \<noteq> None"
    by (auto simp: tag_inv_def)
  have none: "filter (\<lambda>x. tagName x = tagName e) eps = []" if "map_of m (tagName e) = None"
  proof -
    have "tagName x \<noteq> tagName e" if "x \<in> set eps" for x
      using c [OF that] \<open>map_of m (tagName e) = None\<close> by metis
    then show ?thesis by (simp add: filter_empty_conv)
  qed
  have "es = filter (\<lambda>x. tagName x = k) (eps @ [e])"
    if "map_of (add_to_tag m e) k = Some (dd, es)" for k dd es
  proof (cases "k = tagName e")
    case True
    with that show ?thesis
      using f [of k] none
      by (auto simp: add_to_tag_map_of split: option.splits)
  next
    case False
    with that f [of k dd es] show ?thesis
      by (auto simp: add_to_tag_map_of)
  qed
  moreover have "map_of (add_to_tag m e) (tagName x) \<noteq> None" if "x \<in> set (eps @ [e])" for x
    using that c [of x] by (auto simp: add_to_tag_map_of)
  ultimately show ?thesis
    using add_to_tag_distinct [OF d] unfolding tag_inv_def by blast
qed

lemma tag_inv_foldl:
  "tag_inv done m \<Longrightarrow> tag_inv (done @ eps) (foldl add_to_tag m eps)"
proof (induction eps arbitrary: "done" m)
  case Nil
  then show ?case by simp
next
  case (Cons e eps)
  from Cons.IH [OF tag_inv_step [OF Cons.prems, of e]] show ?case by simp
qed

lemma declared_tags_empty:
  "distinct (map fst m) \<Longrightarrow> (\<forall>(k, d, es)\<in>set m. es = []) \<Longrightarrow>
   distinct (map fst (foldl (\<lambda>m tag. Map_set (tag_name tag) (tag_description tag, []) m) m ts))
   \<and> (\<forall>(k, d, es)\<in>set (foldl (\<lambda>m tag. Map_set (tag_name tag) (tag_description tag, []) m) m ts).
         es = [])"
proof (induction ts arbitrary: m)
  case Nil
  then show ?case by simp
next
  case (Cons t ts)
  let ?m = "Map_set (tag_name t) (tag_description t, []) m"
  have "distinct (map fst ?m)" using Cons.prems(1) by (rule distinct_Map_set)
  moreover have "\<forall>(k, d, es)\<in>set ?m. es = []"
  proof -
    have "set ?m \<subseteq> insert (tag_name t, tag_description t, []) (set m)"
      by (induction m) (auto split: if_splits)
    with Cons.prems(2) show ?thesis by auto
  qed
  ultimately show ?case using Cons.IH [of ?m] by simp
qed

lemma final_tag_map:
  fixes eps0 :: "ApiEndpoint list" and tags :: "OpenApiTag list option"
    and declared :: "(string \<times> string option \<times> ApiEndpoint list) list"
  defines "declared \<equiv> foldl (\<lambda>m tag. Map_set (tag_name tag) (tag_description tag, []) m) []
                       (case tags of None \<Rightarrow> [] | Some ts \<Rightarrow> ts)"
  shows "tag_inv eps0 (foldl add_to_tag (Map_set ''default'' (None, []) declared) eps0)"
proof -
  let ?m0 = "Map_set ''default'' (None, []) declared"
  have d: "distinct (map fst declared)" and e: "\<forall>(k, d, es)\<in>set declared. es = []"
    using declared_tags_empty
      [of "[] :: (string \<times> string option \<times> ApiEndpoint list) list"
          "case tags of None \<Rightarrow> [] | Some ts \<Rightarrow> ts"]
    by (simp_all add: declared_def)
  have d0: "distinct (map fst ?m0)" using d by (rule distinct_Map_set)
  have "set ?m0 \<subseteq> insert (''default'', None, []) (set declared)"
    by (induction declared) (auto split: if_splits)
  with e have e0: "\<forall>(k, d, es)\<in>set ?m0. es = []" by auto
  have "es = []" if "map_of ?m0 k = Some (dd, es)" for k dd es
    using map_of_SomeD [OF that] e0 by auto
  with d0 have "tag_inv [] ?m0" by (simp add: tag_inv_def)
  from tag_inv_foldl [OF this, of eps0] show ?thesis by simp
qed

text \<open>
  Claim C7, as the specification states it: every endpoint is placed in the group named
  by its first declared tag. An endpoint whose first tag is the empty string is placed
  in the group \<open>default\<close>, because the empty string is falsy in
  \<^verbatim>\<open>endpoint.tags?.[0] || 'default'\<close>.
\<close>

theorem empty_first_tag_in_default:
  "groupEndpointsByTag [tagged (Some [[], ''pets'']) ''/pets''] None
     = [\<lparr>group_name = ''default'', group_description = None,
         group_endpoints = [tagged (Some [[], ''pets'']) ''/pets'']\<rparr>]"
  by code_simp

text \<open>
  Claim C7, amended: the groups have distinct names; each group is not empty and holds
  exactly the endpoints whose group name is its name, in their order; every endpoint is
  in the group of its group name, which is its first declared tag if that is not the
  empty string, and \<open>default\<close> if it has no tags, an empty list of tags or an empty first
  tag. So a declared tag without endpoints names no group.
\<close>

theorem groups_by_first_tag:
  "distinct (map group_name (groupEndpointsByTag eps0 tags))
   \<and> (\<forall>g\<in>set (groupEndpointsByTag eps0 tags).
        group_endpoints g \<noteq> []
        \<and> group_endpoints g = filter (\<lambda>e. tagName e = group_name g) eps0)
   \<and> (\<forall>e\<in>set eps0. \<exists>g\<in>set (groupEndpointsByTag eps0 tags). group_name g = tagName e)
   \<and> (ep_tags e = Some (t # ts) \<and> t \<noteq> [] \<longrightarrow> tagName e = t)
   \<and> (ep_tags e = None \<or> ep_tags e = Some [] \<or> ep_tags e = Some ([] # ts)
        \<longrightarrow> tagName e = ''default'')"
proof -
  define declared :: "(string \<times> string option \<times> ApiEndpoint list) list"
    where "declared = foldl (\<lambda>m tag. Map_set (tag_name tag) (tag_description tag, []) m) []
                       (case tags of None \<Rightarrow> [] | Some ts \<Rightarrow> ts)"
  define final where "final = foldl add_to_tag (Map_set ''default'' (None, []) declared) eps0"
  let ?mk = "\<lambda>(name, description, eps).
               \<lparr>group_name = name, group_description = description, group_endpoints = eps\<rparr>"
  let ?kept = "filter (\<lambda>(name, description, eps). length eps > 0) final"
  have out: "groupEndpointsByTag eps0 tags = map ?mk ?kept"
    by (simp add: groupEndpointsByTag_def Let_def declared_def final_def)
  have inv: "tag_inv eps0 final"
    unfolding final_def declared_def by (rule final_tag_map)
  then have d: "distinct (map fst final)"
    and f: "\<And>k d es. map_of final k = Some (d, es) \<Longrightarrow> es = filter (\<lambda>e. tagName e = k) eps0"
    and c: "\<And>x. x \<in> set eps0 \<Longrightarrow> map_of final (tagName x) \<noteq> None"
    by (auto simp: tag_inv_def)
  have names: "map group_name (map ?mk ?kept) = map fst ?kept"
    by (induction final) auto
  have 1: "distinct (map group_name (groupEndpointsByTag eps0 tags))"
    unfolding out names using d by (rule distinct_map_filter)
  have 2: "group_endpoints g \<noteq> []
        \<and> group_endpoints g = filter (\<lambda>e. tagName e = group_name g) eps0"
    if "g \<in> set (groupEndpointsByTag eps0 tags)" for g
  proof -
    from that obtain k dd es where m: "(k, dd, es) \<in> set final" and ne: "es \<noteq> []"
      and g: "g = \<lparr>group_name = k, group_description = dd, group_endpoints = es\<rparr>"
      by (auto simp: out)
    from m d have "map_of final k = Some (dd, es)" by simp
    from f [OF this] ne g show ?thesis by simp
  qed
  have 3: "\<exists>g\<in>set (groupEndpointsByTag eps0 tags). group_name g = tagName x"
    if "x \<in> set eps0" for x
  proof -
    from c [OF that] obtain dd es where m: "map_of final (tagName x) = Some (dd, es)" by auto
    from f [OF m] that have "x \<in> set es" by simp
    then have "es \<noteq> []" by auto
    moreover from m have "(tagName x, dd, es) \<in> set final" by (rule map_of_SomeD)
    ultimately have "\<lparr>group_name = tagName x, group_description = dd, group_endpoints = es\<rparr>
        \<in> set (groupEndpointsByTag eps0 tags)"
      by (force simp: out)
    then show ?thesis by force
  qed
  have 4: "ep_tags e = Some (t # ts) \<and> t \<noteq> [] \<longrightarrow> tagName e = t"
    by (simp add: tagName_def)
  have 5: "ep_tags e = None \<or> ep_tags e = Some [] \<or> ep_tags e = Some ([] # ts)
        \<longrightarrow> tagName e = ''default''"
    by (auto simp: tagName_def)
  from 1 2 3 4 5 show ?thesis by blast
qed


theorem groups_by_first_tag_witness:
  "tagged (Some [''pets'']) ''/pets'' \<in> set [tagged (Some [''pets'']) ''/pets'', tagged None ''/health'']
   \<and> groupEndpointsByTag [tagged (Some [''pets'']) ''/pets'', tagged None ''/health'']
        (Some [\<lparr>tag_name = ''unused'', tag_description = None\<rparr>,
               \<lparr>tag_name = ''pets'', tag_description = Some ''Pets''\<rparr>])
      = [\<lparr>group_name = ''pets'', group_description = Some ''Pets'',
          group_endpoints = [tagged (Some [''pets'']) ''/pets'']\<rparr>,
         \<lparr>group_name = ''default'', group_description = None,
          group_endpoints = [tagged None ''/health'']\<rparr>]
   \<and> tagName (tagged (Some [''pets'']) ''/pets'') = ''pets''
   \<and> tagName (tagged None ''/health'') = ''default''"
proof -
  let ?eps = "[tagged (Some [''pets'']) ''/pets'', tagged None ''/health'']"
  let ?tags = "Some [\<lparr>tag_name = ''unused'', tag_description = None\<rparr>,
               \<lparr>tag_name = ''pets'', tag_description = Some ''Pets''\<rparr>]"
  have 1: "groupEndpointsByTag ?eps ?tags
      = [\<lparr>group_name = ''pets'', group_description = Some ''Pets'',
          group_endpoints = [tagged (Some [''pets'']) ''/pets'']\<rparr>,
         \<lparr>group_name = ''default'', group_description = None,
          group_endpoints = [tagged None ''/health'']\<rparr>]"
    by code_simp
  have 2: "ep_tags (tagged (Some [''pets'']) ''/pets'') = Some (''pets'' # []) \<and> ''pets'' \<noteq> []"
    by (simp add: tagged_def)
  have 3: "ep_tags (tagged None ''/health'') = None"
    by (simp add: tagged_def)
  from groups_by_first_tag [of ?eps ?tags "tagged (Some [''pets'']) ''/pets''" "''pets''" "[]"] 2
  have 4: "tagName (tagged (Some [''pets'']) ''/pets'') = ''pets''" by blast
  from groups_by_first_tag [of ?eps ?tags "tagged None ''/health''"] 3
  have 5: "tagName (tagged None ''/health'') = ''default''" by blast
  from 1 4 5 show ?thesis by simp
qed

section \<open>The routes of a registered ViewSet\<close>











section \<open>Path parameters\<close>

lemma extractPathParams_skip: "c \<noteq> CHR ''{'' \<Longrightarrow> extractPathParams (c # cs) = extractPathParams cs"
  by simp


























end
